theory Spec2Isabelle
  imports Main "HOL-Library.Multiset"
begin

section \<open>Python values used by the notebooks\<close>

text \<open>
  The notebooks are Python scripts around hosted services. An exception is a value:
  every function that can raise returns \<open>exn + 'a\<close>, with \<open>Inl\<close> for the exception.
  \<open>IOError\<close> is Python's \<^verbatim>\<open>IOError\<close> (an alias of \<^verbatim>\<open>OSError\<close>), \<open>IndexError\<close> is what
  \<^verbatim>\<open>xs[0]\<close> raises on an empty list, and \<open>Raised name\<close> is an exception of any other
  class, named by the external client that raised it.
\<close>

datatype exn = IOError string | IndexError | Raised string

text \<open>\<^verbatim>\<open>xs[:k]\<close>: a negative \<open>k\<close> counts from the end of the list.\<close>

definition slice_to :: "'a list \<Rightarrow> int \<Rightarrow> 'a list" where
  "slice_to xs k = (if 0 \<le> k then take (nat k) xs else take (length xs - nat (- k)) xs)"

text \<open>\<^verbatim>\<open>xs[0]\<close>\<close>

definition first_item :: "'a list \<Rightarrow> exn + 'a" where
  "first_item xs = (case xs of [] \<Rightarrow> Inl IndexError | x # _ \<Rightarrow> Inr x)"

text \<open>\<^verbatim>\<open>sep.join(xs)\<close>\<close>

fun join :: "string \<Rightarrow> string list \<Rightarrow> string" where
  "join sep [] = []"
| "join sep [x] = x"
| "join sep (x # y # ys) = x @ sep @ join sep (y # ys)"


section \<open>The external clients\<close>

text \<open>
  What the hosted services compute (embeddings, nearest neighbours, completions) is not
  part of the repository: each service is a function the notebooks call, and a call
  either raises or returns. Floating-point numbers are values of a type variable:
  \<open>'f\<close> for the components of an embedding, \<open>'s\<close> for a relevance score.
\<close>

record chat_request =
  chat_model :: string
  chat_temperature :: "int option"
  chat_messages :: "(string \<times> string) list"

record 'f search_request =
  search_collection_name :: string
  search_data :: "'f list list"
  search_limit :: int
  search_params :: "string option"
  search_output_fields :: "string list"

text \<open>One hit of a Milvus search: \<^verbatim>\<open>{"id": .., "distance": .., "entity": {"text": ..}}\<close>.\<close>

record 's hit =
  hit_id :: int
  distance :: 's
  entity_text :: string

text \<open>
  The collections of a Milvus instance, by name. The notebooks create a collection with a
  dimension, a metric type and a consistency level; its rows are the inserted entities.
\<close>

record 'f entity =
  entity_id :: int
  entity_vector :: "'f list"
  entity_content :: string

record 'f collection =
  dimension :: nat
  metric_type :: string
  consistency_level :: string
  entities :: "'f entity list"

type_synonym 'f milvus = "string \<rightharpoonup> 'f collection"

text \<open>The collection calls that \<^verbatim>\<open>RAG._prepare_milvus\<close> makes on the Milvus client.\<close>

datatype milvus_call =
  HasCollection string
| DropCollection string
| CreateCollection string nat string string

text \<open>
  The services behind the clients: \<^verbatim>\<open>openai_client.embeddings.create(input, model)\<close>
  returns the embeddings of its \<^verbatim>\<open>data\<close> entries,
  \<^verbatim>\<open>openai_client.chat.completions.create\<close> the message contents of its \<^verbatim>\<open>choices\<close>,
  \<^verbatim>\<open>milvus_client.search\<close> one list of hits for each query vector. \<open>milvus_fault\<close> tells
  whether the Milvus client raises on a collection call in a state of the store, for a
  reason that the store does not decide: the connection, or parameters that the server
  rejects.
\<close>

record ('f, 's) services =
  embeddings_create :: "string \<Rightarrow> string \<Rightarrow> exn + 'f list list"
  chat_completions_create :: "chat_request \<Rightarrow> exn + string list"
  milvus_search :: "'f milvus \<Rightarrow> 'f search_request \<Rightarrow> exn + 's hit list list"
  milvus_fault :: "'f milvus \<Rightarrow> milvus_call \<Rightarrow> exn option"

text \<open>
  The collection operations of the Milvus client, on the store of collections. Each of
  them can raise; a call that raises leaves the store as it was. When it returns,
  \<^verbatim>\<open>has_collection\<close> tells whether the name is bound and \<^verbatim>\<open>drop_collection\<close> unbinds it.
  \<^verbatim>\<open>create_collection\<close> raises also on the dimension 0 and on a name that is taken (a
  duplicate collection name is a failure), and otherwise binds the name to a collection
  without entities.
\<close>

definition has_collection :: "('f, 's) services \<Rightarrow> 'f milvus \<Rightarrow> string \<Rightarrow> exn + bool" where
  "has_collection sv db name =
     (case milvus_fault sv db (HasCollection name) of
        Some e \<Rightarrow> Inl e
      | None \<Rightarrow> Inr (db name \<noteq> None))"

definition drop_collection ::
  "('f, 's) services \<Rightarrow> 'f milvus \<Rightarrow> string \<Rightarrow> exn + 'f milvus" where
  "drop_collection sv db name =
     (case milvus_fault sv db (DropCollection name) of
        Some e \<Rightarrow> Inl e
      | None \<Rightarrow> Inr (db(name := None)))"

definition create_collection ::
  "('f, 's) services \<Rightarrow> 'f milvus \<Rightarrow> string \<Rightarrow> nat \<Rightarrow> string \<Rightarrow> string
     \<Rightarrow> exn + 'f milvus" where
  "create_collection sv db name dim metric consistency =
     (case milvus_fault sv db (CreateCollection name dim metric consistency) of
        Some e \<Rightarrow> Inl e
      | None \<Rightarrow>
          if dim = 0 then Inl (Raised ''MilvusException'')
          else
            (case db name of
               Some _ \<Rightarrow> Inl (Raised ''MilvusException'')
             | None \<Rightarrow> Inr (db(name \<mapsto>
                 \<lparr>dimension = dim, metric_type = metric, consistency_level = consistency,
                  entities = []\<rparr>))))"

section \<open>The RAG class (evaluation\_with\_ragas)\<close>

record rag =
  embedding_model :: string
  llm_model :: string
  SYSTEM_PROMPT :: string
  collection_name :: string

text \<open>\<^verbatim>\<open>self.USER_PROMPT.format(context=.., question=..)\<close>\<close>

definition USER_PROMPT_format :: "string \<Rightarrow> string \<Rightarrow> string" where
  "USER_PROMPT_format context question =
     ''\<newline>Use the following pieces of information enclosed in <context> tags to provide an answer to the question enclosed in <question> tags.\<newline><context>\<newline>''
     @ context @ ''\<newline></context>\<newline><question>\<newline>'' @ question
     @ ''\<newline></question>\<newline>''"

text \<open>\<^verbatim>\<open>RAG._prepare_openai\<close> with its default arguments, as \<^verbatim>\<open>__init__\<close> calls it.\<close>

definition prepare_openai :: "string \<Rightarrow> rag" where
  "prepare_openai name =
     \<lparr>embedding_model = ''text-embedding-3-small'',
      llm_model = ''gpt-3.5-turbo'',
      SYSTEM_PROMPT = ''\<newline>Human: You are an AI assistant. You are able to find answers to the questions from the contextual passage snippets provided.\<newline>'',
      collection_name = name\<rparr>"

text \<open>\<^verbatim>\<open>RAG._emb_text\<close>: \<^verbatim>\<open>embeddings.create(input=text, model=..).data[0].embedding\<close>\<close>

definition emb_text_with :: "('f, 's) services \<Rightarrow> string \<Rightarrow> string \<Rightarrow> exn + 'f list" where
  "emb_text_with sv model_name text =
     (case embeddings_create sv text model_name of
        Inl e \<Rightarrow> Inl e
      | Inr embeddings \<Rightarrow> first_item embeddings)"

definition rag_emb_text :: "('f, 's) services \<Rightarrow> rag \<Rightarrow> string \<Rightarrow> exn + 'f list" where
  "rag_emb_text sv self text = emb_text_with sv (embedding_model self) text"

text \<open>
  \<^verbatim>\<open>RAG._prepare_milvus\<close>. The store is returned also when the method raises: a
  collection dropped before the exception stays dropped.
\<close>

definition prepare_milvus ::
  "('f, 's) services \<Rightarrow> rag \<Rightarrow> 'f milvus \<Rightarrow> 'f milvus \<times> (exn + rag)" where
  "prepare_milvus sv self db =
     (case has_collection sv db (collection_name self) of
        Inl e \<Rightarrow> (db, Inl e)
      | Inr exists \<Rightarrow>
          (case (if exists then drop_collection sv db (collection_name self) else Inr db) of
             Inl e \<Rightarrow> (db, Inl e)
           | Inr db1 \<Rightarrow>
               (case rag_emb_text sv self ''foo'' of
                  Inl e \<Rightarrow> (db1, Inl e)
                | Inr embedding \<Rightarrow>
                    (case create_collection sv db1 (collection_name self) (length embedding)
                            ''IP'' ''Strong'' of
                       Inl e \<Rightarrow> (db1, Inl e)
                     | Inr db2 \<Rightarrow> (db2, Inr self)))))"

text \<open>\<^verbatim>\<open>RAG.__init__\<close>: the collection name is the default, \<^verbatim>\<open>"rag_collection"\<close>.\<close>

definition rag_init :: "('f, 's) services \<Rightarrow> 'f milvus \<Rightarrow> 'f milvus \<times> (exn + rag)" where
  "rag_init sv db = prepare_milvus sv (prepare_openai ''rag_collection'') db"

text \<open>\<^verbatim>\<open>RAG.retrieve\<close>\<close>

definition retrieve ::
  "('f, 's) services \<Rightarrow> rag \<Rightarrow> 'f milvus \<Rightarrow> string \<Rightarrow> int \<Rightarrow> exn + string list" where
  "retrieve sv self db question top_k =
     (case rag_emb_text sv self question of
        Inl e \<Rightarrow> Inl e
      | Inr embedding \<Rightarrow>
          (case milvus_search sv db
                  \<lparr>search_collection_name = collection_name self,
                   search_data = [embedding],
                   search_limit = top_k,
                   search_params = Some ''IP'',
                   search_output_fields = [''text'']\<rparr> of
             Inl e \<Rightarrow> Inl e
           | Inr search_res \<Rightarrow>
               (case first_item search_res of
                  Inl e \<Rightarrow> Inl e
                | Inr hits \<Rightarrow> Inr (slice_to (map entity_text hits) top_k))))"

section \<open>Retrieval and generation in rag\_with\_milvus\_and\_unstructured\<close>

text \<open>The notebook's global \<^verbatim>\<open>emb_text\<close>.\<close>

definition emb_text :: "('f, 's) services \<Rightarrow> string \<Rightarrow> exn + 'f list" where
  "emb_text sv text = emb_text_with sv ''text-embedding-3-small'' text"

text \<open>\<^verbatim>\<open>retrieve_documents\<close>, on the notebook's collection \<^verbatim>\<open>"my_rag_collection"\<close>.\<close>

definition retrieve_documents ::
  "('f, 's) services \<Rightarrow> 'f milvus \<Rightarrow> string \<Rightarrow> int \<Rightarrow> exn + (string \<times> 's) list" where
  "retrieve_documents sv db question top_k =
     (case emb_text sv question of
        Inl e \<Rightarrow> Inl e
      | Inr embedding \<Rightarrow>
          (case milvus_search sv db
                  \<lparr>search_collection_name = ''my_rag_collection'',
                   search_data = [embedding],
                   search_limit = top_k,
                   search_params = None,
                   search_output_fields = [''text'']\<rparr> of
             Inl e \<Rightarrow> Inl e
           | Inr search_res \<Rightarrow>
               (case first_item search_res of
                  Inl e \<Rightarrow> Inl e
                | Inr hits \<Rightarrow> Inr (map (\<lambda>res. (entity_text res, distance res)) hits))))"

text \<open>
  \<^verbatim>\<open>RAG.answer\<close> returns the generated text, or the pair of the generated text and the
  retrieved texts.
\<close>

datatype answer_value = Content string | ContentAndTexts string "string list"

definition answer ::
  "('f, 's) services \<Rightarrow> rag \<Rightarrow> 'f milvus \<Rightarrow> string \<Rightarrow> int \<Rightarrow> bool \<Rightarrow> exn + answer_value" where
  "answer sv self db question retrieval_top_k return_retrieved_text =
     (case retrieve sv self db question retrieval_top_k of
        Inl e \<Rightarrow> Inl e
      | Inr retrieved_texts \<Rightarrow>
          (let user_prompt = USER_PROMPT_format (join ''\<newline>'' retrieved_texts) question
           in case chat_completions_create sv
                     \<lparr>chat_model = llm_model self,
                      chat_temperature = None,
                      chat_messages = [(''system'', SYSTEM_PROMPT self), (''user'', user_prompt)]\<rparr> of
                Inl e \<Rightarrow> Inl e
              | Inr choices \<Rightarrow>
                  (case first_item choices of
                     Inl e \<Rightarrow> Inl e
                   | Inr content \<Rightarrow>
                       if \<not> return_retrieved_text then Inr (Content content)
                       else Inr (ContentAndTexts content retrieved_texts))))"






section \<open>Filtering by tags (zilliz\_pipeline\_rag\_advanced)\<close>

text \<open>
  Modelled from the spec: a document chunk of the pipeline's collection, an id and a text
  with optional metadata tags such as the \<^verbatim>\<open>version\<close> field used for filtering. The
  collection is created by \<^verbatim>\<open>pipeline_utils.IngestionPipeline\<close>, which is not among the
  sources.
\<close>

record chunk =
  chunk_id :: int
  chunk_text :: string
  tags :: "(string \<times> string) list"

text \<open>
  Modelled from the spec: the optional filter of a search, an equality filter on a tag
  field.
\<close>

datatype filter_expr = NoFilter | TagEquals string string

text \<open>
  Modelled from the spec: the filter expression of \<^verbatim>\<open>pipeline_utils.SearchPipeline.run\<close>,
  which is not among the sources. The interface is a similarity search with an optional
  scalar filter expression such as \<^verbatim>\<open>version == "2.2"\<close>, an equality filter on a tag field.
  The empty string is no filter; \<^verbatim>\<open>name == "literal"\<close> is an equality filter; anything
  else is rejected.
\<close>

definition parse_filter :: "string \<Rightarrow> filter_expr option" where
  \<open>parse_filter s =
     (if s = [] then Some NoFilter
      else
        (let name = takeWhile (\<lambda>c. c \<noteq> CHR '' '') s;
             rest = dropWhile (\<lambda>c. c \<noteq> CHR '' '') s;
             quoted = drop 5 rest
         in if name \<noteq> [] \<and> take 5 rest = '' == "'' \<and> quoted \<noteq> []
               \<and> last quoted = CHR 0x22 \<and> CHR 0x22 \<notin> set (butlast quoted)
            then Some (TagEquals name (butlast quoted))
            else None))\<close>

text \<open>
  Modelled from the spec: the filter predicate over the metadata of a chunk, for the
  search of \<^verbatim>\<open>pipeline_utils.SearchPipeline\<close>.
\<close>

fun matches :: "filter_expr \<Rightarrow> chunk \<Rightarrow> bool" where
  "matches NoFilter c = True"
| "matches (TagEquals name literal) c = (map_of (tags c) name = Some literal)"

text \<open>
  Modelled from the spec: a result of \<^verbatim>\<open>pipeline_utils.SearchPipeline.run\<close>, which is not
  among the sources. A result carries the chunk text and the other output fields asked
  for, as the notebook's output shows.
\<close>

definition output_chunk :: "string list \<Rightarrow> chunk \<Rightarrow> chunk" where
  "output_chunk other_output_fields c =
     c\<lparr>tags := filter (\<lambda>(name, literal). name \<in> set other_output_fields) (tags c)\<rparr>"

text \<open>
  Modelled from the spec: \<^verbatim>\<open>pipeline_utils.SearchPipeline.run\<close>, which is not among the
  sources. Given a query string and a result-count bound it produces the nearest
  neighbours in descending order of score, after the optional filter predicate over the
  chunk metadata. The nearest-neighbour order of the collection's chunks is the hosted
  service's (\<open>nearest\<close>).
\<close>

definition search_pipeline_run ::
  "(string \<Rightarrow> exn + chunk list) \<Rightarrow> string \<Rightarrow> nat \<Rightarrow> string list \<Rightarrow> string
     \<Rightarrow> exn + chunk list" where
  "search_pipeline_run nearest question top_k other_output_fields flt =
     (case parse_filter flt of
        None \<Rightarrow> Inl (Raised ''invalid filter expression'')
      | Some expr \<Rightarrow>
          (case nearest question of
             Inl e \<Rightarrow> Inl e
           | Inr neighbours \<Rightarrow>
               Inr (map (output_chunk other_output_fields)
                      (take top_k (filter (matches expr) neighbours)))))"

text \<open>\<^verbatim>\<open>MilvusDocChatbot.retrieve\<close>: the filter is the f-string \<^verbatim>\<open>f'version == "{milvus_version}"'\<close>.\<close>

definition chatbot_retrieve ::
  "(string \<Rightarrow> exn + chunk list) \<Rightarrow> string \<Rightarrow> string \<Rightarrow> exn + chunk list" where
  \<open>chatbot_retrieve nearest query milvus_version =
     search_pipeline_run nearest query 2 [''version'']
       (''version == "'' @ milvus_version @ ''"'')\<close>



section \<open>Hybrid retrieval and reranking (hybrid\_and\_rerank\_with\_langchain)\<close>

text \<open>A LangChain document, as the retrievers return it.\<close>

record document =
  page_content :: string
  metadata :: "(string \<times> string) list"

text \<open>
  Modelled from the spec: \<^verbatim>\<open>rag_utils.hybrid_and_rerank.RerankerRunnable\<close>, which is not
  among the sources. The hybrid retriever merges the two retrievers' result sets by
  concatenation, deduplicates by identity, then delegates to a reranker. The loop keeps
  the first occurrence of each document; \<open>seen\<close> holds the documents met so far.
\<close>

fun remove_duplicates :: "'a list \<Rightarrow> 'a list \<Rightarrow> 'a list" where
  "remove_duplicates seen [] = []"
| "remove_duplicates seen (doc # docs) =
     (if doc \<in> set seen then remove_duplicates seen docs
      else doc # remove_duplicates (doc # seen) docs)"

text \<open>
  Modelled from the spec: the candidates of \<^verbatim>\<open>RerankerRunnable\<close>, the concatenation of the
  two retrievers' results without its duplicates.
\<close>

definition unique_documents :: "'a list \<Rightarrow> 'a list \<Rightarrow> 'a list" where
  "unique_documents milvus_retrieved_doc bm25_retrieved_doc =
     remove_duplicates [] (milvus_retrieved_doc @ bm25_retrieved_doc)"

text \<open>
  Modelled from the spec: the reranker, which is not among the sources. Given a query and
  the candidate texts it returns the top K, reordered by a relevance judgment that an
  external service computes (\<open>judge\<close>: one score for each candidate text); it fails if the
  service fails or returns malformed output, and has no local fallback scoring.
\<close>

definition rerank ::
  "(string \<Rightarrow> string list \<Rightarrow> exn + ('s::linorder) list) \<Rightarrow> nat \<Rightarrow> string \<Rightarrow> document list
     \<Rightarrow> exn + document list" where
  "rerank judge top_k query candidates =
     (case judge query (map page_content candidates) of
        Inl e \<Rightarrow> Inl e
      | Inr scores \<Rightarrow>
          if length scores \<noteq> length candidates then Inl (Raised ''malformed rerank response'')
          else Inr (take top_k (map snd (rev (sort_key fst (zip scores candidates))))))"

text \<open>
  Modelled from the spec: \<^verbatim>\<open>RerankerRunnable.invoke\<close>, which merges, deduplicates and
  delegates to the reranker.
\<close>

definition reranker_invoke ::
  "(string \<Rightarrow> string list \<Rightarrow> exn + ('s::linorder) list) \<Rightarrow> nat
     \<Rightarrow> document list \<Rightarrow> document list \<Rightarrow> string \<Rightarrow> exn + document list" where
  "reranker_invoke judge top_k milvus_retrieved_doc bm25_retrieved_doc query =
     rerank judge top_k query (unique_documents milvus_retrieved_doc bm25_retrieved_doc)"

text \<open>
  The notebook's \<^verbatim>\<open>hybrid_and_rerank_retriever\<close>: both retrievers are run on the query and
  their results go to the reranker, which is built with \<^verbatim>\<open>top_k=4\<close>.
\<close>

definition hybrid_and_rerank_retriever ::
  "(string \<Rightarrow> exn + document list) \<Rightarrow> (string \<Rightarrow> exn + document list)
     \<Rightarrow> (string \<Rightarrow> string list \<Rightarrow> exn + ('s::linorder) list) \<Rightarrow> string
     \<Rightarrow> exn + document list" where
  "hybrid_and_rerank_retriever milvus_retriever bm25_retriever judge query =
     (case milvus_retriever query of
        Inl e \<Rightarrow> Inl e
      | Inr milvus_retrieved_doc \<Rightarrow>
          (case bm25_retriever query of
             Inl e \<Rightarrow> Inl e
           | Inr bm25_retrieved_doc \<Rightarrow>
               reranker_invoke judge 4 milvus_retrieved_doc bm25_retrieved_doc query))"

section \<open>Contracts of the services and sample inputs\<close>

text \<open>
  The Milvus search is asked for at most \<^verbatim>\<open>limit\<close> hits for each query vector. A service
  honours the limit when no list of hits it returns is longer.
\<close>

definition search_honours_limit :: "('f, 's) services \<Rightarrow> bool" where
  "search_honours_limit sv =
     (\<forall>db req res. milvus_search sv db req = Inr res \<longrightarrow>
        (\<forall>hits \<in> set res. int (length hits) \<le> search_limit req))"

text \<open>A sample service: three stored texts, returned best first and cut at the limit.\<close>

definition demo_hits :: "int hit list" where
  "demo_hits =
     [\<lparr>hit_id = 0, distance = 9, entity_text = ''alpha''\<rparr>,
      \<lparr>hit_id = 1, distance = 7, entity_text = ''beta''\<rparr>,
      \<lparr>hit_id = 2, distance = 4, entity_text = ''gamma''\<rparr>]"

definition demo_services :: "(int, int) services" where
  "demo_services =
     \<lparr>embeddings_create = (\<lambda>text model_name. Inr [[1, 2]]),
      chat_completions_create = (\<lambda>request. Inr [''generated'']),
      milvus_search = (\<lambda>db request.
        if search_limit request < 0 then Inl (Raised ''MilvusException'')
        else Inr [take (nat (search_limit request)) demo_hits]),
      milvus_fault = (\<lambda>db call. None)\<rparr>"

text \<open>A search that returns all three hits, whatever the limit.\<close>

definition unbounded_services :: "(int, int) services" where
  "unbounded_services =
     demo_services\<lparr>milvus_search := (\<lambda>db request. Inr [demo_hits])\<rparr>"

text \<open>A store in which \<^verbatim>\<open>"rag_collection"\<close> exists already and holds an entity.\<close>

definition demo_db :: "int milvus" where
  "demo_db = [''rag_collection'' \<mapsto>
     \<lparr>dimension = 3, metric_type = ''COSINE'', consistency_level = ''Bounded'',
      entities = [\<lparr>entity_id = 0, entity_vector = [1, 2, 3], entity_content = ''old''\<rparr>]\<rparr>]"

text \<open>A list of scores is descending when no later score is greater than an earlier one.\<close>

definition descending :: "('s::linorder) list \<Rightarrow> bool" where
  "descending xs = sorted_wrt (\<lambda>a b. b \<le> a) xs"

text \<open>The sample service with other scores for the same three texts.\<close>

definition rescored_services :: "(int, int) services" where
  "rescored_services =
     demo_services\<lparr>milvus_search := (\<lambda>db request.
        Inr [take (nat (search_limit request))
               (map (\<lambda>res. res\<lparr>distance := distance res - 3\<rparr>) demo_hits)])\<rparr>"




text \<open>Services and a directory listing that raise.\<close>

definition failing_services :: "(int, int) services" where
  "failing_services =
     demo_services\<lparr>embeddings_create := (\<lambda>text model_name. Inl (Raised ''AuthenticationError''))\<rparr>"


definition no_chat_services :: "(int, int) services" where
  "no_chat_services =
     demo_services\<lparr>chat_completions_create := (\<lambda>request. Inl (Raised ''RateLimitError''))\<rparr>"



definition no_create_services :: "(int, int) services" where
  "no_create_services =
     demo_services\<lparr>milvus_fault := (\<lambda>db call.
        case call of
          CreateCollection name dim metric consistency \<Rightarrow> Some (Raised ''MilvusException'')
        | _ \<Rightarrow> None)\<rparr>"

text \<open>An embedding service that returns the embedding without components.\<close>

definition empty_embedding_services :: "(int, int) services" where
  "empty_embedding_services =
     demo_services\<lparr>embeddings_create := (\<lambda>text model_name. Inr [[]])\<rparr>"





definition no_retriever :: "string \<Rightarrow> exn + document list" where
  "no_retriever query = Inl (Raised ''ConnectionError'')"


text \<open>
  A completion service that answers with the request it received: the model, whether a
  temperature is set, and the contents of the messages.
\<close>

definition echo_services :: "(int, int) services" where
  "echo_services =
     demo_services\<lparr>chat_completions_create := (\<lambda>request.
        Inr [join ''|''
               (chat_model request
                # (case chat_temperature request of None \<Rightarrow> ''unset'' | Some t \<Rightarrow> ''set'')
                # map snd (chat_messages request))])\<rparr>"

text \<open>
  A collection with chunks of the two versions of the document, in the order of their
  similarity to the question.
\<close>

definition demo_chunks :: "chunk list" where
  "demo_chunks =
     [\<lparr>chunk_id = 0, chunk_text = ''delete by primary key or expression'',
       tags = [(''doc_name'', ''milvus_doc.md''), (''version'', ''2.3'')]\<rparr>,
      \<lparr>chunk_id = 1, chunk_text = ''delete by primary key'',
       tags = [(''doc_name'', ''milvus_doc_22.md''), (''version'', ''2.2'')]\<rparr>,
      \<lparr>chunk_id = 2, chunk_text = ''prepare boolean expression'',
       tags = [(''doc_name'', ''milvus_doc_22.md''), (''version'', ''2.2'')]\<rparr>,
      \<lparr>chunk_id = 3, chunk_text = ''time travel'',
       tags = [(''doc_name'', ''milvus_doc_22.md''), (''version'', ''2.2'')]\<rparr>]"

definition demo_nearest :: "string \<Rightarrow> exn + chunk list" where
  "demo_nearest question = Inr demo_chunks"

text \<open>
  Two retrievers' results of four documents each with two documents in common, and a
  relevance judgment (here the length of the text).
\<close>

definition doc :: "string \<Rightarrow> document" where
  "doc text = \<lparr>page_content = text, metadata = []\<rparr>"

definition demo_milvus_docs :: "document list" where
  "demo_milvus_docs = [doc ''talm'', doc ''toolformer'', doc ''mrkl'', doc ''api-bank'']"

definition demo_bm25_docs :: "document list" where
  "demo_bm25_docs = [doc ''plugins'', doc ''toolformer'', doc ''hugginggpt'', doc ''mrkl'']"

definition demo_judge :: "string \<Rightarrow> string list \<Rightarrow> exn + int list" where
  "demo_judge query texts = Inr (map (\<lambda>text. int (length text)) texts)"

section \<open>Properties\<close>

lemma length_slice_to: "0 \<le> k \<Longrightarrow> int (length (slice_to xs k)) \<le> k"
  by (simp add: slice_to_def)

text \<open>
  C1. For every question and every non-negative \<open>top_k\<close>, \<^verbatim>\<open>RAG.retrieve\<close> returns at most
  \<open>top_k\<close> texts: it cuts the list of texts at \<open>top_k\<close> itself, whatever the search
  returned. \<^verbatim>\<open>retrieve_documents\<close> passes \<open>top_k\<close> to the search as its limit and returns
  one pair for each hit, so it returns at most \<open>top_k\<close> pairs from a search that honours
  its limit.
\<close>

theorem retrieve_at_most_top_k:
  assumes "0 \<le> top_k"
  shows "(\<forall>texts. retrieve sv self db question top_k = Inr texts
            \<longrightarrow> int (length texts) \<le> top_k)
       \<and> (search_honours_limit sv \<longrightarrow>
            (\<forall>pairs. retrieve_documents sv db question top_k = Inr pairs
               \<longrightarrow> int (length pairs) \<le> top_k))"
proof (intro conjI allI impI)
  fix texts
  assume "retrieve sv self db question top_k = Inr texts"
  with assms show "int (length texts) \<le> top_k"
    by (auto simp: retrieve_def length_slice_to split: sum.splits)
next
  fix pairs
  assume lim: "search_honours_limit sv"
    and "retrieve_documents sv db question top_k = Inr pairs"
  then obtain embedding search_res hits where
    s: "milvus_search sv db
          \<lparr>search_collection_name = ''my_rag_collection'', search_data = [embedding],
           search_limit = top_k, search_params = None, search_output_fields = [''text'']\<rparr>
        = Inr search_res"
    and f: "first_item search_res = Inr hits"
    and p: "pairs = map (\<lambda>res. (entity_text res, distance res)) hits"
    by (auto simp: retrieve_documents_def split: sum.splits)
  from f have "hits \<in> set search_res"
    by (auto simp: first_item_def split: list.splits)
  with lim s have "int (length hits) \<le> top_k"
    unfolding search_honours_limit_def by fastforce
  with p show "int (length pairs) \<le> top_k" by simp
qed

theorem retrieve_at_most_top_k_witness:
  "(0::int) \<le> 2
   \<and> retrieve demo_services (prepare_openai ''rag_collection'') Map.empty ''q'' 2
       = Inr [''alpha'', ''beta'']
   \<and> retrieve unbounded_services (prepare_openai ''rag_collection'') Map.empty ''q'' 2
       = Inr [''alpha'', ''beta'']
   \<and> search_honours_limit demo_services
   \<and> retrieve_documents demo_services Map.empty ''q'' 2 = Inr [(''alpha'', 9), (''beta'', 7)]"
proof -
  have r: "retrieve demo_services (prepare_openai ''rag_collection'') Map.empty ''q'' 2
             = Inr [''alpha'', ''beta'']"
    by (simp add: retrieve_def rag_emb_text_def emb_text_with_def first_item_def
        demo_services_def demo_hits_def slice_to_def prepare_openai_def)
  have u: "retrieve unbounded_services (prepare_openai ''rag_collection'') Map.empty ''q'' 2
             = Inr [''alpha'', ''beta'']"
    by (simp add: retrieve_def rag_emb_text_def emb_text_with_def first_item_def
        unbounded_services_def demo_services_def demo_hits_def slice_to_def prepare_openai_def)
  have d: "retrieve_documents demo_services Map.empty ''q'' 2
             = Inr [(''alpha'', 9), (''beta'', 7)]"
    by (simp add: retrieve_documents_def emb_text_def emb_text_with_def first_item_def
        demo_services_def demo_hits_def)
  have h: "search_honours_limit demo_services"
    by (auto simp: search_honours_limit_def demo_services_def demo_hits_def split: if_splits)
  from retrieve_at_most_top_k
    [of 2 demo_services "prepare_openai ''rag_collection''" Map.empty "''q''"]
    retrieve_at_most_top_k
    [of 2 unbounded_services "prepare_openai ''rag_collection''" Map.empty "''q''"]
  show ?thesis using r u d h by simp
qed

lemma rag_init_unfold:
  "rag_init sv db =
     (case has_collection sv db ''rag_collection'' of
        Inl e \<Rightarrow> (db, Inl e)
      | Inr exists \<Rightarrow>
          (case (if exists then drop_collection sv db ''rag_collection'' else Inr db) of
             Inl e \<Rightarrow> (db, Inl e)
           | Inr db1 \<Rightarrow>
               (case emb_text_with sv ''text-embedding-3-small'' ''foo'' of
                  Inl e \<Rightarrow> (db1, Inl e)
                | Inr embedding \<Rightarrow>
                    (case create_collection sv db1 ''rag_collection'' (length embedding)
                            ''IP'' ''Strong'' of
                       Inl e \<Rightarrow> (db1, Inl e)
                     | Inr db2 \<Rightarrow> (db2, Inr (prepare_openai ''rag_collection''))))))"
proof -
  have c: "collection_name (prepare_openai ''rag_collection'') = ''rag_collection''"
    and m: "embedding_model (prepare_openai ''rag_collection'') = ''text-embedding-3-small''"
    by (simp_all add: prepare_openai_def)
  show ?thesis
    unfolding rag_init_def prepare_milvus_def rag_emb_text_def c m ..
qed

lemma rag_init_returns:
  assumes "snd (rag_init sv db) = Inr self"
  shows "\<exists>embedding.
           emb_text_with sv ''text-embedding-3-small'' ''foo'' = Inr embedding
           \<and> fst (rag_init sv db)
               = db(''rag_collection'' \<mapsto>
                   \<lparr>dimension = length embedding, metric_type = ''IP'',
                    consistency_level = ''Strong'', entities = []\<rparr>)"
proof -
  let ?n = "''rag_collection''"
  from assms obtain exists db1 embedding db2 where
    h: "has_collection sv db ?n = Inr exists"
    and d: "(if exists then drop_collection sv db ?n else Inr db) = Inr db1"
    and e: "emb_text_with sv ''text-embedding-3-small'' ''foo'' = Inr embedding"
    and c: "create_collection sv db1 ?n (length embedding) ''IP'' ''Strong'' = Inr db2"
    and r: "rag_init sv db = (db2, Inr (prepare_openai ?n))"
    by (auto simp: rag_init_unfold split: sum.splits)
  from h have b: "exists = (db ?n \<noteq> None)"
    by (auto simp: has_collection_def split: option.splits)
  have db1: "db1 = db(?n := None)"
  proof (cases exists)
    case True
    with d show ?thesis
      by (auto simp: drop_collection_def split: option.splits)
  next
    case False
    with b have "db(?n := None) = db"
      by (simp add: fun_upd_idem)
    with False d show ?thesis by simp
  qed
  from c have "db2 = db1(?n \<mapsto>
      \<lparr>dimension = length embedding, metric_type = ''IP'',
       consistency_level = ''Strong'', entities = []\<rparr>)"
    by (auto simp: create_collection_def split: option.splits if_splits)
  with db1 e r show ?thesis by simp
qed

lemma rag_init_after_drop:
  assumes "milvus_fault sv db (HasCollection ''rag_collection'') = None"
    and "db ''rag_collection'' \<noteq> None
           \<longrightarrow> milvus_fault sv db (DropCollection ''rag_collection'') = None"
  shows "rag_init sv db =
     (case emb_text_with sv ''text-embedding-3-small'' ''foo'' of
        Inl e \<Rightarrow> (db(''rag_collection'' := None), Inl e)
      | Inr embedding \<Rightarrow>
          (case create_collection sv (db(''rag_collection'' := None)) ''rag_collection''
                  (length embedding) ''IP'' ''Strong'' of
             Inl e \<Rightarrow> (db(''rag_collection'' := None), Inl e)
           | Inr db2 \<Rightarrow> (db2, Inr (prepare_openai ''rag_collection''))))"
proof (cases "db ''rag_collection''")
  case None
  then have u: "db(''rag_collection'' := None) = db"
    by (simp add: fun_upd_idem)
  from None assms show ?thesis
    unfolding u by (simp add: rag_init_unfold has_collection_def)
next
  case (Some c)
  with assms show ?thesis
    by (simp add: rag_init_unfold has_collection_def drop_collection_def)
qed

text \<open>
  C9, as the claim states it, fails when the constructor raises after the drop: with an
  embedding service that raises on the probe, the collection that existed before the
  call does not exist after it.
\<close>

theorem rag_init_raises_after_drop:
  "demo_db ''rag_collection'' \<noteq> None
   \<and> rag_init failing_services demo_db
       = (demo_db(''rag_collection'' := None), Inl (Raised ''AuthenticationError''))
   \<and> fst (rag_init failing_services demo_db) ''rag_collection'' = None"
  by (simp add: rag_init_unfold has_collection_def drop_collection_def emb_text_with_def
      failing_services_def demo_services_def demo_db_def)

text \<open>
  C9, amended. A call of the constructor that returns leaves the collection
  \<^verbatim>\<open>"rag_collection"\<close> existing and empty, whatever the store held before: the collection
  has the dimension of the probe embedding of \<^verbatim>\<open>"foo"\<close>, the inner-product metric and
  strong consistency, and no entities, and the other collections are unchanged. The call
  returns when none of its client calls raises and the probe embedding has a component.
  When the probe or \<^verbatim>\<open>create_collection\<close> raises, the constructor raises after the
  existing collection has been dropped, and the collection does not exist afterwards.
\<close>

theorem rag_init_fresh_collection:
  "(snd (rag_init sv db) = Inr self \<longrightarrow>
      (\<exists>embedding.
         emb_text_with sv ''text-embedding-3-small'' ''foo'' = Inr embedding
         \<and> fst (rag_init sv db)
             = db(''rag_collection'' \<mapsto>
                 \<lparr>dimension = length embedding, metric_type = ''IP'',
                  consistency_level = ''Strong'', entities = []\<rparr>)))
   \<and> (milvus_fault sv db (HasCollection ''rag_collection'') = None
        \<and> (db ''rag_collection'' \<noteq> None
             \<longrightarrow> milvus_fault sv db (DropCollection ''rag_collection'') = None)
        \<and> emb_text_with sv ''text-embedding-3-small'' ''foo'' = Inr embedding
        \<and> embedding \<noteq> []
        \<and> milvus_fault sv (db(''rag_collection'' := None))
             (CreateCollection ''rag_collection'' (length embedding) ''IP'' ''Strong'') = None
        \<longrightarrow> rag_init sv db
              = (db(''rag_collection'' \<mapsto>
                   \<lparr>dimension = length embedding, metric_type = ''IP'',
                    consistency_level = ''Strong'', entities = []\<rparr>),
                 Inr (prepare_openai ''rag_collection'')))
   \<and> (milvus_fault sv db (HasCollection ''rag_collection'') = None
        \<and> (db ''rag_collection'' \<noteq> None
             \<longrightarrow> milvus_fault sv db (DropCollection ''rag_collection'') = None)
        \<and> emb_text_with sv ''text-embedding-3-small'' ''foo'' = Inl e
        \<longrightarrow> rag_init sv db = (db(''rag_collection'' := None), Inl e))
   \<and> (milvus_fault sv db (HasCollection ''rag_collection'') = None
        \<and> (db ''rag_collection'' \<noteq> None
             \<longrightarrow> milvus_fault sv db (DropCollection ''rag_collection'') = None)
        \<and> emb_text_with sv ''text-embedding-3-small'' ''foo'' = Inr embedding
        \<and> create_collection sv (db(''rag_collection'' := None)) ''rag_collection''
             (length embedding) ''IP'' ''Strong'' = Inl e
        \<longrightarrow> rag_init sv db = (db(''rag_collection'' := None), Inl e))"
proof (intro conjI impI)
  assume "snd (rag_init sv db) = Inr self"
  then show "\<exists>embedding.
         emb_text_with sv ''text-embedding-3-small'' ''foo'' = Inr embedding
         \<and> fst (rag_init sv db)
             = db(''rag_collection'' \<mapsto>
                 \<lparr>dimension = length embedding, metric_type = ''IP'',
                  consistency_level = ''Strong'', entities = []\<rparr>)"
    by (rule rag_init_returns)
next
  assume a: "milvus_fault sv db (HasCollection ''rag_collection'') = None
        \<and> (db ''rag_collection'' \<noteq> None
             \<longrightarrow> milvus_fault sv db (DropCollection ''rag_collection'') = None)
        \<and> emb_text_with sv ''text-embedding-3-small'' ''foo'' = Inr embedding
        \<and> embedding \<noteq> []
        \<and> milvus_fault sv (db(''rag_collection'' := None))
             (CreateCollection ''rag_collection'' (length embedding) ''IP'' ''Strong'') = None"
  then show "rag_init sv db
              = (db(''rag_collection'' \<mapsto>
                   \<lparr>dimension = length embedding, metric_type = ''IP'',
                    consistency_level = ''Strong'', entities = []\<rparr>),
                 Inr (prepare_openai ''rag_collection''))"
    using rag_init_after_drop [of sv db] by (simp add: create_collection_def)
next
  assume "milvus_fault sv db (HasCollection ''rag_collection'') = None
        \<and> (db ''rag_collection'' \<noteq> None
             \<longrightarrow> milvus_fault sv db (DropCollection ''rag_collection'') = None)
        \<and> emb_text_with sv ''text-embedding-3-small'' ''foo'' = Inl e"
  then show "rag_init sv db = (db(''rag_collection'' := None), Inl e)"
    using rag_init_after_drop [of sv db] by simp
next
  assume "milvus_fault sv db (HasCollection ''rag_collection'') = None
        \<and> (db ''rag_collection'' \<noteq> None
             \<longrightarrow> milvus_fault sv db (DropCollection ''rag_collection'') = None)
        \<and> emb_text_with sv ''text-embedding-3-small'' ''foo'' = Inr embedding
        \<and> create_collection sv (db(''rag_collection'' := None)) ''rag_collection''
             (length embedding) ''IP'' ''Strong'' = Inl e"
  then show "rag_init sv db = (db(''rag_collection'' := None), Inl e)"
    using rag_init_after_drop [of sv db] by simp
qed

theorem rag_init_fresh_collection_witness:
  "demo_db ''rag_collection'' \<noteq> None
   \<and> entities (the (demo_db ''rag_collection'')) \<noteq> []
   \<and> rag_init demo_services demo_db
       = (demo_db(''rag_collection'' \<mapsto>
            \<lparr>dimension = 2, metric_type = ''IP'', consistency_level = ''Strong'',
             entities = []\<rparr>),
          Inr (prepare_openai ''rag_collection''))
   \<and> rag_init demo_services Map.empty
       = ([''rag_collection'' \<mapsto>
            \<lparr>dimension = 2, metric_type = ''IP'', consistency_level = ''Strong'',
             entities = []\<rparr>],
          Inr (prepare_openai ''rag_collection''))
   \<and> rag_init no_chat_services demo_db = rag_init demo_services demo_db
   \<and> rag_init failing_services Map.empty = (Map.empty, Inl (Raised ''AuthenticationError''))
   \<and> rag_init empty_embedding_services demo_db
       = (demo_db(''rag_collection'' := None), Inl (Raised ''MilvusException''))
   \<and> rag_init no_create_services demo_db
       = (demo_db(''rag_collection'' := None), Inl (Raised ''MilvusException''))"
proof -
  let ?n = "''rag_collection''"
  let ?m = "''text-embedding-3-small''"
  have d: "demo_db ?n \<noteq> None \<and> entities (the (demo_db ?n)) \<noteq> []"
    by (simp add: demo_db_def)
  have f: "milvus_fault demo_services db call = None"
    "milvus_fault no_chat_services db call = None"
    "milvus_fault failing_services db call = None"
    "milvus_fault empty_embedding_services db call = None" for db call
    by (simp_all add: demo_services_def no_chat_services_def failing_services_def
        empty_embedding_services_def)
  have fc: "milvus_fault no_create_services db (HasCollection name) = None"
    "milvus_fault no_create_services db (DropCollection name) = None"
    "milvus_fault no_create_services db (CreateCollection name dim metric consistency)
       = Some (Raised ''MilvusException'')" for db name dim metric consistency
    by (simp_all add: no_create_services_def)
  have e: "emb_text_with demo_services ?m ''foo'' = Inr [1, 2]"
    "emb_text_with no_chat_services ?m ''foo'' = Inr [1, 2]"
    "emb_text_with no_create_services ?m ''foo'' = Inr [1, 2]"
    "emb_text_with failing_services ?m ''foo'' = Inl (Raised ''AuthenticationError'')"
    "emb_text_with empty_embedding_services ?m ''foo'' = Inr []"
    by (simp_all add: emb_text_with_def first_item_def demo_services_def no_chat_services_def
        no_create_services_def failing_services_def empty_embedding_services_def)
  have c0: "create_collection empty_embedding_services (demo_db(?n := None)) ?n
              (length ([]::int list)) ''IP'' ''Strong'' = Inl (Raised ''MilvusException'')"
    by (simp add: create_collection_def f)
  have c1: "create_collection no_create_services (demo_db(?n := None)) ?n
              (length [1::int, 2]) ''IP'' ''Strong'' = Inl (Raised ''MilvusException'')"
    by (simp add: create_collection_def fc)
  from rag_init_fresh_collection
    [of demo_services demo_db "prepare_openai ?n" "[1, 2]" "Raised ''x''"] f e
  have 1: "rag_init demo_services demo_db
       = (demo_db(?n \<mapsto>
            \<lparr>dimension = 2, metric_type = ''IP'', consistency_level = ''Strong'',
             entities = []\<rparr>), Inr (prepare_openai ?n))"
    by (simp add: numeral_2_eq_2)
  from rag_init_fresh_collection
    [of demo_services Map.empty "prepare_openai ?n" "[1, 2]" "Raised ''x''"] f e
  have 2: "rag_init demo_services Map.empty
       = ([?n \<mapsto>
            \<lparr>dimension = 2, metric_type = ''IP'', consistency_level = ''Strong'',
             entities = []\<rparr>], Inr (prepare_openai ?n))"
    by (simp add: numeral_2_eq_2)
  from rag_init_fresh_collection
    [of no_chat_services demo_db "prepare_openai ?n" "[1, 2]" "Raised ''x''"] f e 1
  have 3: "rag_init no_chat_services demo_db = rag_init demo_services demo_db"
    by (simp add: numeral_2_eq_2)
  from rag_init_fresh_collection
    [of failing_services Map.empty "prepare_openai ?n" "[1, 2]" "Raised ''AuthenticationError''"]
    f e
  have 4: "rag_init failing_services Map.empty
             = (Map.empty, Inl (Raised ''AuthenticationError''))"
    by simp
  from rag_init_fresh_collection
    [of empty_embedding_services demo_db "prepare_openai ?n" "[]" "Raised ''MilvusException''"]
    f e c0
  have 5: "rag_init empty_embedding_services demo_db
       = (demo_db(?n := None), Inl (Raised ''MilvusException''))"
    by simp
  from rag_init_fresh_collection
    [of no_create_services demo_db "prepare_openai ?n" "[1, 2]" "Raised ''MilvusException''"]
    fc e c1
  have 6: "rag_init no_create_services demo_db
       = (demo_db(?n := None), Inl (Raised ''MilvusException''))"
    by simp
  from d 1 2 3 4 5 6 show ?thesis by blast
qed

text \<open>
  C10. \<^verbatim>\<open>RAG.answer\<close> with \<^verbatim>\<open>return_retrieved_text=True\<close> returns a pair whose second
  component is what \<^verbatim>\<open>RAG.retrieve\<close> returns for the same question and \<open>top_k\<close>; with
  \<^verbatim>\<open>return_retrieved_text=False\<close> it returns the generated text alone. In both cases the
  generated text is the first choice of the one completion request built from the
  retrieved texts: the model of the object, the system prompt, and the user prompt
  template filled with the retrieved texts, joined by newlines, and the question. Either
  call raises exactly when the other does.
\<close>

theorem answer_returns_retrieved_texts:
  "(retrieve sv self db question retrieval_top_k = Inl e \<longrightarrow>
      answer sv self db question retrieval_top_k return_retrieved_text = Inl e)
   \<and> (retrieve sv self db question retrieval_top_k = Inr retrieved_texts \<longrightarrow>
        answer sv self db question retrieval_top_k return_retrieved_text
          = (case chat_completions_create sv
                    \<lparr>chat_model = llm_model self,
                     chat_temperature = None,
                     chat_messages =
                       [(''system'', SYSTEM_PROMPT self),
                        (''user'',
                         USER_PROMPT_format (join ''\<newline>'' retrieved_texts) question)]\<rparr> of
               Inl e \<Rightarrow> Inl e
             | Inr choices \<Rightarrow>
                 (case first_item choices of
                    Inl e \<Rightarrow> Inl e
                  | Inr content \<Rightarrow>
                      Inr (if return_retrieved_text
                           then ContentAndTexts content retrieved_texts
                           else Content content))))
   \<and> (answer sv self db question retrieval_top_k True = Inr r \<longrightarrow>
        (\<exists>content texts.
           r = ContentAndTexts content texts
           \<and> retrieve sv self db question retrieval_top_k = Inr texts
           \<and> answer sv self db question retrieval_top_k False = Inr (Content content)))
   \<and> (answer sv self db question retrieval_top_k False = Inr r \<longrightarrow>
        (\<exists>content texts.
           r = Content content
           \<and> retrieve sv self db question retrieval_top_k = Inr texts
           \<and> answer sv self db question retrieval_top_k True
               = Inr (ContentAndTexts content texts)))
   \<and> (answer sv self db question retrieval_top_k True = Inl e
        \<longleftrightarrow> answer sv self db question retrieval_top_k False = Inl e)"
proof -
  have 1: "retrieve sv self db question retrieval_top_k = Inl e \<longrightarrow>
      answer sv self db question retrieval_top_k return_retrieved_text = Inl e"
    by (simp add: answer_def)
  have 2: "retrieve sv self db question retrieval_top_k = Inr retrieved_texts \<longrightarrow>
        answer sv self db question retrieval_top_k return_retrieved_text
          = (case chat_completions_create sv
                    \<lparr>chat_model = llm_model self,
                     chat_temperature = None,
                     chat_messages =
                       [(''system'', SYSTEM_PROMPT self),
                        (''user'',
                         USER_PROMPT_format (join ''\<newline>'' retrieved_texts) question)]\<rparr> of
               Inl e \<Rightarrow> Inl e
             | Inr choices \<Rightarrow>
                 (case first_item choices of
                    Inl e \<Rightarrow> Inl e
                  | Inr content \<Rightarrow>
                      Inr (if return_retrieved_text
                           then ContentAndTexts content retrieved_texts
                           else Content content)))"
    by (simp add: answer_def Let_def split: sum.splits)
  have 3: "(answer sv self db question retrieval_top_k True = Inr r \<longrightarrow>
        (\<exists>content texts.
           r = ContentAndTexts content texts
           \<and> retrieve sv self db question retrieval_top_k = Inr texts
           \<and> answer sv self db question retrieval_top_k False = Inr (Content content)))
   \<and> (answer sv self db question retrieval_top_k False = Inr r \<longrightarrow>
        (\<exists>content texts.
           r = Content content
           \<and> retrieve sv self db question retrieval_top_k = Inr texts
           \<and> answer sv self db question retrieval_top_k True
               = Inr (ContentAndTexts content texts)))
   \<and> (answer sv self db question retrieval_top_k True = Inl e
        \<longleftrightarrow> answer sv self db question retrieval_top_k False = Inl e)"
    by (auto simp: answer_def Let_def split: sum.splits)
  from 1 2 3 show ?thesis by blast
qed

theorem answer_returns_retrieved_texts_witness:
  "retrieve echo_services (prepare_openai ''rag_collection'') Map.empty ''Q'' 2
     = Inr [''alpha'', ''beta'']
   \<and> answer echo_services (prepare_openai ''rag_collection'') Map.empty ''Q'' 2 True
       = Inr (ContentAndTexts
           (join ''|''
              [''gpt-3.5-turbo'', ''unset'', SYSTEM_PROMPT (prepare_openai ''rag_collection''),
               USER_PROMPT_format ''alpha\<newline>beta'' ''Q''])
           [''alpha'', ''beta''])
   \<and> answer echo_services (prepare_openai ''rag_collection'') Map.empty ''Q'' 2 False
       = Inr (Content
           (join ''|''
              [''gpt-3.5-turbo'', ''unset'', SYSTEM_PROMPT (prepare_openai ''rag_collection''),
               USER_PROMPT_format ''alpha\<newline>beta'' ''Q'']))
   \<and> retrieve failing_services (prepare_openai ''rag_collection'') Map.empty ''Q'' 2
       = Inl (Raised ''AuthenticationError'')
   \<and> answer failing_services (prepare_openai ''rag_collection'') Map.empty ''Q'' 2 True
       = Inl (Raised ''AuthenticationError'')"
proof -
  let ?rag = "prepare_openai ''rag_collection''"
  have r: "retrieve echo_services ?rag Map.empty ''Q'' 2 = Inr [''alpha'', ''beta'']"
    by (simp add: retrieve_def rag_emb_text_def emb_text_with_def first_item_def
        echo_services_def demo_services_def demo_hits_def slice_to_def prepare_openai_def)
  have c: "chat_completions_create echo_services
             \<lparr>chat_model = llm_model ?rag, chat_temperature = None,
              chat_messages =
                [(''system'', SYSTEM_PROMPT ?rag),
                 (''user'', USER_PROMPT_format (join ''\<newline>'' [''alpha'', ''beta'']) ''Q'')]\<rparr>
           = Inr [join ''|''
                    [''gpt-3.5-turbo'', ''unset'', SYSTEM_PROMPT ?rag,
                     USER_PROMPT_format ''alpha\<newline>beta'' ''Q'']]"
    by (simp add: echo_services_def prepare_openai_def)
  from answer_returns_retrieved_texts
    [of echo_services ?rag Map.empty "''Q''" 2 "Raised ''x''" True "[''alpha'', ''beta'']"] r c
  have t: "answer echo_services ?rag Map.empty ''Q'' 2 True
       = Inr (ContentAndTexts
           (join ''|''
              [''gpt-3.5-turbo'', ''unset'', SYSTEM_PROMPT ?rag,
               USER_PROMPT_format ''alpha\<newline>beta'' ''Q''])
           [''alpha'', ''beta''])"
    by (simp add: first_item_def)
  from answer_returns_retrieved_texts
    [of echo_services ?rag Map.empty "''Q''" 2 "Raised ''x''" False "[''alpha'', ''beta'']"] r c
  have f: "answer echo_services ?rag Map.empty ''Q'' 2 False
       = Inr (Content
           (join ''|''
              [''gpt-3.5-turbo'', ''unset'', SYSTEM_PROMPT ?rag,
               USER_PROMPT_format ''alpha\<newline>beta'' ''Q'']))"
    by (simp add: first_item_def)
  have x: "retrieve failing_services ?rag Map.empty ''Q'' 2
             = Inl (Raised ''AuthenticationError'')"
    by (simp add: retrieve_def rag_emb_text_def emb_text_with_def failing_services_def)
  from answer_returns_retrieved_texts
    [of failing_services ?rag Map.empty "''Q''" 2 "Raised ''AuthenticationError''" True] x
  have y: "answer failing_services ?rag Map.empty ''Q'' 2 True
             = Inl (Raised ''AuthenticationError'')"
    by simp
  from r t f x y show ?thesis by blast
qed

text \<open>
  C5, as the claim states it, fails for \<^verbatim>\<open>RAG.retrieve\<close>: it returns the texts alone. Two
  searches that score the same texts differently give different pairs in
  \<^verbatim>\<open>retrieve_documents\<close> and the same list of texts in \<^verbatim>\<open>RAG.retrieve\<close>.
\<close>

theorem retrieve_discards_scores:
  "retrieve_documents demo_services Map.empty ''q'' 2 = Inr [(''alpha'', 9), (''beta'', 7)]
   \<and> retrieve_documents rescored_services Map.empty ''q'' 2 = Inr [(''alpha'', 6), (''beta'', 4)]
   \<and> retrieve demo_services (prepare_openai ''rag_collection'') Map.empty ''q'' 2
       = Inr [''alpha'', ''beta'']
   \<and> retrieve rescored_services (prepare_openai ''rag_collection'') Map.empty ''q'' 2
       = Inr [''alpha'', ''beta'']"
  by (simp add: retrieve_def retrieve_documents_def rag_emb_text_def emb_text_def
      emb_text_with_def first_item_def demo_services_def rescored_services_def demo_hits_def
      slice_to_def prepare_openai_def)

text \<open>
  C5, amended. \<^verbatim>\<open>retrieve_documents\<close> returns one (text, distance) pair for each hit of
  the search, in the order of the hits, so the scores are descending whenever the search
  returns its hits in descending order of distance. \<^verbatim>\<open>RAG.retrieve\<close> returns the texts of
  the hits in the same order, cut at \<open>top_k\<close>, without the scores.
\<close>

theorem retrieval_follows_search_order:
  "(retrieve_documents sv db question top_k = Inr pairs \<longrightarrow>
      (\<exists>embedding hits more.
         emb_text sv question = Inr embedding
         \<and> milvus_search sv db
              \<lparr>search_collection_name = ''my_rag_collection'', search_data = [embedding],
               search_limit = top_k, search_params = None,
               search_output_fields = [''text'']\<rparr> = Inr (hits # more)
         \<and> pairs = map (\<lambda>res. (entity_text res, distance res)) hits
         \<and> (descending (map distance hits) \<longrightarrow> descending (map snd pairs))))
   \<and> (retrieve sv self db question top_k = Inr texts \<longrightarrow>
        (\<exists>embedding hits more.
           rag_emb_text sv self question = Inr embedding
           \<and> milvus_search sv db
                \<lparr>search_collection_name = collection_name self, search_data = [embedding],
                 search_limit = top_k, search_params = Some ''IP'',
                 search_output_fields = [''text'']\<rparr> = Inr (hits # more)
           \<and> texts = slice_to (map entity_text hits) top_k))"
  by (auto simp: retrieve_def retrieve_documents_def first_item_def comp_def
      split: sum.splits list.splits)

theorem retrieval_follows_search_order_witness:
  "retrieve_documents demo_services Map.empty ''q'' 2 = Inr [(''alpha'', 9), (''beta'', 7)]
   \<and> descending (map snd [(''alpha'', 9::int), (''beta'', 7)])
   \<and> retrieve demo_services (prepare_openai ''rag_collection'') Map.empty ''q'' 2
       = Inr [''alpha'', ''beta'']"
proof -
  have d: "retrieve_documents demo_services Map.empty ''q'' 2
             = Inr [(''alpha'', 9), (''beta'', 7)]"
    by (simp add: retrieve_documents_def emb_text_def emb_text_with_def first_item_def
        demo_services_def demo_hits_def)
  have r: "retrieve demo_services (prepare_openai ''rag_collection'') Map.empty ''q'' 2
             = Inr [''alpha'', ''beta'']"
    by (simp add: retrieve_def rag_emb_text_def emb_text_with_def first_item_def
        demo_services_def demo_hits_def slice_to_def prepare_openai_def)
  have s: "milvus_search demo_services db req = Inr (hits # more)
           \<Longrightarrow> search_limit req = 2 \<Longrightarrow> descending (map distance hits)" for db req hits more
    by (auto simp: demo_services_def demo_hits_def descending_def split: if_splits)
  from retrieval_follows_search_order
    [of demo_services Map.empty "''q''" 2 "[(''alpha'', 9), (''beta'', 7)]"
        "prepare_openai ''rag_collection''" "[''alpha'', ''beta'']"]
  show ?thesis using d r s by (auto simp: descending_def)
qed









lemma parse_filter_version_22:
  \<open>parse_filter ''version == "2.2"'' = Some (TagEquals ''version'' ''2.2'')\<close>
  by (simp add: parse_filter_def)

lemma parse_filter_version_23:
  \<open>parse_filter ''version == "2.3"'' = Some (TagEquals ''version'' ''2.3'')\<close>
  by (simp add: parse_filter_def)

lemma map_of_output_chunk:
  "name \<in> set other_output_fields \<Longrightarrow>
     map_of (tags (output_chunk other_output_fields c)) name = map_of (tags c) name"
proof (induction "tags c" arbitrary: c)
  case Nil
  then show ?case by (simp add: output_chunk_def)
next
  case (Cons p ps)
  from Cons(1) [of "c\<lparr>tags := ps\<rparr>"] Cons(2,3) show ?case
    by (cases p) (auto simp: output_chunk_def Cons(2) [symmetric])
qed

lemma search_pipeline_run_TagEquals:
  assumes "parse_filter flt = Some (TagEquals name literal)"
    and "name \<in> set other_output_fields"
    and "search_pipeline_run nearest question top_k other_output_fields flt = Inr results"
    and "c \<in> set results"
  shows "map_of (tags c) name = Some literal
         \<and> (\<exists>neighbours stored. nearest question = Inr neighbours \<and> stored \<in> set neighbours
               \<and> map_of (tags stored) name = Some literal
               \<and> c = output_chunk other_output_fields stored)"
proof -
  from assms(1,3) obtain neighbours where
    n: "nearest question = Inr neighbours"
    and r: "results = map (output_chunk other_output_fields)
                        (take top_k (filter (matches (TagEquals name literal)) neighbours))"
    by (auto simp: search_pipeline_run_def split: sum.splits)
  from r assms(4) obtain stored where
    s: "stored \<in> set (take top_k (filter (matches (TagEquals name literal)) neighbours))"
    and c: "c = output_chunk other_output_fields stored"
    by auto
  from s have "stored \<in> set (filter (matches (TagEquals name literal)) neighbours)"
    by (rule in_set_takeD)
  then have m: "stored \<in> set neighbours" "map_of (tags stored) name = Some literal"
    by auto
  with c assms(2) have "map_of (tags c) name = Some literal"
    by (simp add: map_of_output_chunk)
  with n m c show ?thesis by blast
qed

text \<open>
  C2. A search with the filter \<^verbatim>\<open>version == "2.2"\<close> returns only chunks whose version
  field is \<^verbatim>\<open>"2.2"\<close>, each of them a stored chunk tagged \<^verbatim>\<open>"2.2"\<close>; a search with the
  filter \<^verbatim>\<open>version == "2.3"\<close> returns only chunks whose version field is \<^verbatim>\<open>"2.3"\<close>. A
  chunk tagged with the other version is never among the results. The chatbot's
  \<^verbatim>\<open>retrieve\<close> is such a search, for two results.
\<close>

theorem filtered_search_keeps_version:
  \<open>(search_pipeline_run nearest question top_k [''version''] ''version == "2.2"'' = Inr results
      \<longrightarrow> (\<forall>c \<in> set results.
             map_of (tags c) ''version'' = Some ''2.2''
             \<and> map_of (tags c) ''version'' \<noteq> Some ''2.3''
             \<and> (\<exists>neighbours stored. nearest question = Inr neighbours
                   \<and> stored \<in> set neighbours
                   \<and> map_of (tags stored) ''version'' = Some ''2.2''
                   \<and> c = output_chunk [''version''] stored)))
   \<and> (search_pipeline_run nearest question top_k [''version''] ''version == "2.3"'' = Inr results
        \<longrightarrow> (\<forall>c \<in> set results.
               map_of (tags c) ''version'' = Some ''2.3''
               \<and> map_of (tags c) ''version'' \<noteq> Some ''2.2''
               \<and> (\<exists>neighbours stored. nearest question = Inr neighbours
                     \<and> stored \<in> set neighbours
                     \<and> map_of (tags stored) ''version'' = Some ''2.3''
                     \<and> c = output_chunk [''version''] stored)))
   \<and> chatbot_retrieve nearest question ''2.2''
       = search_pipeline_run nearest question 2 [''version''] ''version == "2.2"''
   \<and> chatbot_retrieve nearest question ''2.3''
       = search_pipeline_run nearest question 2 [''version''] ''version == "2.3"''\<close>
proof (intro conjI impI ballI)
  fix c
  assume a: \<open>search_pipeline_run nearest question top_k [''version''] ''version == "2.2"''
               = Inr results\<close> "c \<in> set results"
  from search_pipeline_run_TagEquals [OF parse_filter_version_22 _ a]
  show "map_of (tags c) ''version'' = Some ''2.2''"
    and "map_of (tags c) ''version'' \<noteq> Some ''2.3''"
    and "\<exists>neighbours stored. nearest question = Inr neighbours
           \<and> stored \<in> set neighbours
           \<and> map_of (tags stored) ''version'' = Some ''2.2''
           \<and> c = output_chunk [''version''] stored"
    by simp_all
next
  fix c
  assume a: \<open>search_pipeline_run nearest question top_k [''version''] ''version == "2.3"''
               = Inr results\<close> "c \<in> set results"
  from search_pipeline_run_TagEquals [OF parse_filter_version_23 _ a]
  show "map_of (tags c) ''version'' = Some ''2.3''"
    and "map_of (tags c) ''version'' \<noteq> Some ''2.2''"
    and "\<exists>neighbours stored. nearest question = Inr neighbours
           \<and> stored \<in> set neighbours
           \<and> map_of (tags stored) ''version'' = Some ''2.3''
           \<and> c = output_chunk [''version''] stored"
    by simp_all
next
  show \<open>chatbot_retrieve nearest question ''2.2''
       = search_pipeline_run nearest question 2 [''version''] ''version == "2.2"''\<close>
    by (simp add: chatbot_retrieve_def)
  show \<open>chatbot_retrieve nearest question ''2.3''
       = search_pipeline_run nearest question 2 [''version''] ''version == "2.3"''\<close>
    by (simp add: chatbot_retrieve_def)
qed

theorem filtered_search_keeps_version_witness:
  \<open>search_pipeline_run demo_nearest ''q'' 2 [''version''] ''version == "2.2"''
     = Inr [\<lparr>chunk_id = 1, chunk_text = ''delete by primary key'',
             tags = [(''version'', ''2.2'')]\<rparr>,
            \<lparr>chunk_id = 2, chunk_text = ''prepare boolean expression'',
             tags = [(''version'', ''2.2'')]\<rparr>]
   \<and> search_pipeline_run demo_nearest ''q'' 2 [''version''] ''version == "2.3"''
       = Inr [\<lparr>chunk_id = 0, chunk_text = ''delete by primary key or expression'',
               tags = [(''version'', ''2.3'')]\<rparr>]
   \<and> chatbot_retrieve demo_nearest ''q'' ''2.2''
       = Inr [\<lparr>chunk_id = 1, chunk_text = ''delete by primary key'',
               tags = [(''version'', ''2.2'')]\<rparr>,
              \<lparr>chunk_id = 2, chunk_text = ''prepare boolean expression'',
               tags = [(''version'', ''2.2'')]\<rparr>]
   \<and> chatbot_retrieve demo_nearest ''q'' ''2.3''
       = Inr [\<lparr>chunk_id = 0, chunk_text = ''delete by primary key or expression'',
               tags = [(''version'', ''2.3'')]\<rparr>]\<close>
proof -
  have a: \<open>search_pipeline_run demo_nearest ''q'' 2 [''version''] ''version == "2.2"''
     = Inr [\<lparr>chunk_id = 1, chunk_text = ''delete by primary key'',
             tags = [(''version'', ''2.2'')]\<rparr>,
            \<lparr>chunk_id = 2, chunk_text = ''prepare boolean expression'',
             tags = [(''version'', ''2.2'')]\<rparr>]\<close>
    by (simp add: search_pipeline_run_def parse_filter_def demo_nearest_def demo_chunks_def
        output_chunk_def)
  have b: \<open>search_pipeline_run demo_nearest ''q'' 2 [''version''] ''version == "2.3"''
       = Inr [\<lparr>chunk_id = 0, chunk_text = ''delete by primary key or expression'',
               tags = [(''version'', ''2.3'')]\<rparr>]\<close>
    by (simp add: search_pipeline_run_def parse_filter_def demo_nearest_def demo_chunks_def
        output_chunk_def)
  from filtered_search_keeps_version [of demo_nearest "''q''" 2]
  show ?thesis using a b by simp
qed

lemma set_remove_duplicates: "set (remove_duplicates seen docs) = set docs - set seen"
  by (induction docs arbitrary: seen) auto

lemma distinct_remove_duplicates: "distinct (remove_duplicates seen docs)"
  by (induction docs arbitrary: seen) (auto simp: set_remove_duplicates)

text \<open>
  C3. The candidates that the hybrid retriever hands to the reranker are the deduplicated
  union of the two retrievers' results: the same documents as the two lists together,
  each of them once. Four dense and four sparse results, each list without repetition,
  with two documents in common, are six candidates.
\<close>

theorem unique_documents_is_deduplicated_union:
  "set (unique_documents milvus_retrieved_doc bm25_retrieved_doc)
     = set milvus_retrieved_doc \<union> set bm25_retrieved_doc
   \<and> distinct (unique_documents milvus_retrieved_doc bm25_retrieved_doc)
   \<and> length (unique_documents milvus_retrieved_doc bm25_retrieved_doc)
       = card (set milvus_retrieved_doc \<union> set bm25_retrieved_doc)
   \<and> (distinct milvus_retrieved_doc \<and> distinct bm25_retrieved_doc
        \<and> length milvus_retrieved_doc = 4 \<and> length bm25_retrieved_doc = 4
        \<and> card (set milvus_retrieved_doc \<inter> set bm25_retrieved_doc) = 2
        \<longrightarrow> length (unique_documents milvus_retrieved_doc bm25_retrieved_doc) = 6)
   \<and> (milvus_retriever query = Inr milvus_retrieved_doc
        \<and> bm25_retriever query = Inr bm25_retrieved_doc
        \<longrightarrow> hybrid_and_rerank_retriever milvus_retriever bm25_retriever judge query
            = rerank judge 4 query (unique_documents milvus_retrieved_doc bm25_retrieved_doc))"
proof -
  let ?u = "unique_documents milvus_retrieved_doc bm25_retrieved_doc"
  have s: "set ?u = set milvus_retrieved_doc \<union> set bm25_retrieved_doc"
    by (simp add: unique_documents_def set_remove_duplicates)
  have d: "distinct ?u"
    by (simp add: unique_documents_def distinct_remove_duplicates)
  from d have l: "length ?u = card (set milvus_retrieved_doc \<union> set bm25_retrieved_doc)"
    using s distinct_card by fastforce
  have six: "length ?u = 6"
    if "distinct milvus_retrieved_doc \<and> distinct bm25_retrieved_doc
        \<and> length milvus_retrieved_doc = 4 \<and> length bm25_retrieved_doc = 4
        \<and> card (set milvus_retrieved_doc \<inter> set bm25_retrieved_doc) = 2"
  proof -
    from that have "card (set milvus_retrieved_doc) = 4" "card (set bm25_retrieved_doc) = 4"
      by (simp_all add: distinct_card)
    moreover have "card (set milvus_retrieved_doc) + card (set bm25_retrieved_doc)
        = card (set milvus_retrieved_doc \<union> set bm25_retrieved_doc)
          + card (set milvus_retrieved_doc \<inter> set bm25_retrieved_doc)"
      by (rule card_Un_Int) simp_all
    ultimately show ?thesis using that l by simp
  qed
  have h: "hybrid_and_rerank_retriever milvus_retriever bm25_retriever judge query
            = rerank judge 4 query ?u"
    if "milvus_retriever query = Inr milvus_retrieved_doc
        \<and> bm25_retriever query = Inr bm25_retrieved_doc"
    using that by (simp add: hybrid_and_rerank_retriever_def reranker_invoke_def)
  from s d l six h show ?thesis by blast
qed

theorem unique_documents_is_deduplicated_union_witness:
  "distinct demo_milvus_docs \<and> distinct demo_bm25_docs
   \<and> length demo_milvus_docs = 4 \<and> length demo_bm25_docs = 4
   \<and> card (set demo_milvus_docs \<inter> set demo_bm25_docs) = 2
   \<and> unique_documents demo_milvus_docs demo_bm25_docs
       = [doc ''talm'', doc ''toolformer'', doc ''mrkl'', doc ''api-bank'',
          doc ''plugins'', doc ''hugginggpt'']
   \<and> length (unique_documents demo_milvus_docs demo_bm25_docs) = 6"
proof -
  have i: "set demo_milvus_docs \<inter> set demo_bm25_docs = {doc ''toolformer'', doc ''mrkl''}"
    by (auto simp: demo_milvus_docs_def demo_bm25_docs_def doc_def)
  have c: "card (set demo_milvus_docs \<inter> set demo_bm25_docs) = 2"
    unfolding i by (simp add: doc_def)
  have p: "distinct demo_milvus_docs \<and> distinct demo_bm25_docs
           \<and> length demo_milvus_docs = 4 \<and> length demo_bm25_docs = 4"
    by (simp add: demo_milvus_docs_def demo_bm25_docs_def doc_def)
  have u: "unique_documents demo_milvus_docs demo_bm25_docs
       = [doc ''talm'', doc ''toolformer'', doc ''mrkl'', doc ''api-bank'',
          doc ''plugins'', doc ''hugginggpt'']"
    by (simp add: unique_documents_def demo_milvus_docs_def demo_bm25_docs_def doc_def)
  from unique_documents_is_deduplicated_union [of demo_milvus_docs demo_bm25_docs] p c
  have "length (unique_documents demo_milvus_docs demo_bm25_docs) = 6"
    by blast
  with p c u show ?thesis by blast
qed

lemma mset_ranked:
  assumes "length scores = length candidates"
  shows "mset (map snd (rev (sort_key fst (zip scores candidates)))) = mset candidates"
proof -
  have "mset (map snd (rev (sort_key fst (zip scores candidates))))
          = image_mset snd (mset (zip scores candidates))"
    by simp
  also have "\<dots> = mset (map snd (zip scores candidates))"
    by simp
  also have "\<dots> = mset candidates"
    by (simp only: map_snd_zip [OF assms])
  finally show ?thesis .
qed

lemma rerank_Inr:
  assumes "rerank judge top_k query candidates = Inr result"
  shows "\<exists>scores. judge query (map page_content candidates) = Inr scores
           \<and> length scores = length candidates
           \<and> result = take top_k (map snd (rev (sort_key fst (zip scores candidates))))"
  using assms by (auto simp: rerank_def split: sum.splits if_splits)

text \<open>
  C4. The output of the reranker is a reordering of its candidates cut at K: every
  document (and so every text) of the output is one of the candidates, and the output
  has at most K documents. The notebook's hybrid retriever returns at most four
  documents, each returned by one of the two retrievers.
\<close>

theorem rerank_permutes_and_truncates:
  "(rerank judge top_k query candidates = Inr result \<longrightarrow>
      set result \<subseteq> set candidates
      \<and> set (map page_content result) \<subseteq> set (map page_content candidates)
      \<and> length result \<le> top_k
      \<and> (\<exists>reordered. mset reordered = mset candidates \<and> result = take top_k reordered))
   \<and> (hybrid_and_rerank_retriever milvus_retriever bm25_retriever judge query = Inr result \<longrightarrow>
        length result \<le> 4
        \<and> (\<exists>milvus_retrieved_doc bm25_retrieved_doc.
              milvus_retriever query = Inr milvus_retrieved_doc
              \<and> bm25_retriever query = Inr bm25_retrieved_doc
              \<and> set result \<subseteq> set milvus_retrieved_doc \<union> set bm25_retrieved_doc))"
proof -
  have r: "set result \<subseteq> set candidates
      \<and> set (map page_content result) \<subseteq> set (map page_content candidates)
      \<and> length result \<le> top_k
      \<and> (\<exists>reordered. mset reordered = mset candidates \<and> result = take top_k reordered)"
    if a: "rerank judge top_k query candidates = Inr result"
    for top_k query candidates and result :: "document list"
  proof -
    from rerank_Inr [OF a] obtain scores where
      "judge query (map page_content candidates) = Inr scores"
      and l: "length scores = length candidates"
      and res: "result = take top_k (map snd (rev (sort_key fst (zip scores candidates))))"
      by blast
    let ?reordered = "map snd (rev (sort_key fst (zip scores candidates)))"
    from l have m: "mset ?reordered = mset candidates"
      by (rule mset_ranked)
    then have "set ?reordered = set candidates"
      by (rule mset_eq_setD)
    with res have sub: "set result \<subseteq> set candidates"
      using set_take_subset by fastforce
    then have "set (map page_content result) \<subseteq> set (map page_content candidates)"
      by auto
    moreover from res have "length result \<le> top_k"
      by simp
    ultimately show ?thesis using sub m res by blast
  qed
  have h: "length result \<le> 4
        \<and> (\<exists>milvus_retrieved_doc bm25_retrieved_doc.
              milvus_retriever query = Inr milvus_retrieved_doc
              \<and> bm25_retriever query = Inr bm25_retrieved_doc
              \<and> set result \<subseteq> set milvus_retrieved_doc \<union> set bm25_retrieved_doc)"
    if a: "hybrid_and_rerank_retriever milvus_retriever bm25_retriever judge query = Inr result"
  proof -
    from a obtain d s where
      d: "milvus_retriever query = Inr d" and s: "bm25_retriever query = Inr s"
      and rr: "rerank judge 4 query (unique_documents d s) = Inr result"
      by (auto simp: hybrid_and_rerank_retriever_def reranker_invoke_def split: sum.splits)
    from r [OF rr] have "length result \<le> 4" and "set result \<subseteq> set (unique_documents d s)"
      by simp_all
    moreover have "set (unique_documents d s) = set d \<union> set s"
      by (simp add: unique_documents_def set_remove_duplicates)
    ultimately show ?thesis using d s by auto
  qed
  from r h show ?thesis by blast
qed

theorem rerank_permutes_and_truncates_witness:
  "rerank demo_judge 4 ''Which model use tools?''
       [doc ''talm'', doc ''toolformer'', doc ''mrkl'', doc ''api-bank'',
        doc ''plugins'', doc ''hugginggpt'']
     = Inr [doc ''hugginggpt'', doc ''toolformer'', doc ''api-bank'', doc ''plugins'']
   \<and> length [doc ''hugginggpt'', doc ''toolformer'', doc ''api-bank'', doc ''plugins''] \<le> 4
   \<and> hybrid_and_rerank_retriever (\<lambda>query. Inr demo_milvus_docs) (\<lambda>query. Inr demo_bm25_docs)
         demo_judge ''Which model use tools?''
       = Inr [doc ''hugginggpt'', doc ''toolformer'', doc ''api-bank'', doc ''plugins'']"
proof -
  have r: "rerank demo_judge 4 ''Which model use tools?''
       [doc ''talm'', doc ''toolformer'', doc ''mrkl'', doc ''api-bank'',
        doc ''plugins'', doc ''hugginggpt'']
     = Inr [doc ''hugginggpt'', doc ''toolformer'', doc ''api-bank'', doc ''plugins'']"
    by (simp add: rerank_def demo_judge_def doc_def)
  have h: "hybrid_and_rerank_retriever (\<lambda>query. Inr demo_milvus_docs)
         (\<lambda>query. Inr demo_bm25_docs) demo_judge ''Which model use tools?''
       = Inr [doc ''hugginggpt'', doc ''toolformer'', doc ''api-bank'', doc ''plugins'']"
    by (simp add: hybrid_and_rerank_retriever_def reranker_invoke_def unique_documents_def
        demo_milvus_docs_def demo_bm25_docs_def rerank_def demo_judge_def doc_def)
  from rerank_permutes_and_truncates
    [of demo_judge 4 "''Which model use tools?''"
        "[doc ''talm'', doc ''toolformer'', doc ''mrkl'', doc ''api-bank'',
          doc ''plugins'', doc ''hugginggpt'']"
        "[doc ''hugginggpt'', doc ''toolformer'', doc ''api-bank'', doc ''plugins'']"
        "\<lambda>query. Inr demo_milvus_docs" "\<lambda>query. Inr demo_bm25_docs"]
  show ?thesis using r h by simp
qed

end
